theory Spec2Isabelle
  imports Complex_Main
begin

section \<open>Values decoded from an inbound payload\<close>

text \<open>
  \<open>json.loads\<close> yields \<open>None\<close>, booleans, unbounded integers, floats, strings, lists and
  dicts. A float is kept by its exact value when it is finite; \<open>json.loads\<close> also accepts
  \<open>NaN\<close>, \<open>Infinity\<close> and \<open>-Infinity\<close>. A dict is an association list read with
  \<open>map_of\<close>. A string is the list of the bytes of its UTF-8 encoding (a lone surrogate,
  which a JSON escape can produce, being encoded like any other code point).
\<close>

datatype pyfloat = FNan | FInf bool | FFin rat

datatype pyval =
    PNone
  | PBool bool
  | PInt int
  | PFloat pyfloat
  | PStr string
  | PList "pyval list"
  | PDict "(string \<times> pyval) list"

datatype py_exn = ValueError | TypeError | OverflowError | KeyError | UnicodeDecodeError

subsection \<open>The builtins \<open>int\<close>, \<open>bool\<close>, \<open>str\<close>, \<open>in\<close> and indexing\<close>

text \<open>
  Two builtins are taken as parameters, since what they return depends on the interpreter
  and not on this program:
  \<^item> \<open>int_of_str\<close>, what \<open>int\<close> makes of a string, \<open>None\<close> standing for its \<open>ValueError\<close>
    (the whitespace and the digits it accepts follow the interpreter's Unicode tables,
    and CPython from 3.11 on refuses more than 4300 digits);
  \<^item> \<open>repr_of\<close>, the text \<open>str\<close> gives for a float, a list or a dict.
\<close>

record builtins =
  int_of_str :: "string \<Rightarrow> int option"
  repr_of :: "pyval \<Rightarrow> string"

text \<open>\<open>int(f)\<close> for a float truncates towards zero.\<close>

definition trunc :: "rat \<Rightarrow> int" where
  "trunc r = (if 0 \<le> r then \<lfloor>r\<rfloor> else \<lceil>r\<rceil>)"

fun py_int :: "builtins \<Rightarrow> pyval \<Rightarrow> py_exn + int" where
  "py_int bi PNone = Inl TypeError"
| "py_int bi (PBool b) = Inr (if b then 1 else 0)"
| "py_int bi (PInt n) = Inr n"
| "py_int bi (PFloat FNan) = Inl ValueError"
| "py_int bi (PFloat (FInf _)) = Inl OverflowError"
| "py_int bi (PFloat (FFin r)) = Inr (trunc r)"
| "py_int bi (PStr s) = (case int_of_str bi s of None \<Rightarrow> Inl ValueError | Some n \<Rightarrow> Inr n)"
| "py_int bi (PList _) = Inl TypeError"
| "py_int bi (PDict _) = Inl TypeError"

fun py_bool :: "pyval \<Rightarrow> bool" where
  "py_bool PNone = False"
| "py_bool (PBool b) = b"
| "py_bool (PInt n) = (n \<noteq> 0)"
| "py_bool (PFloat (FFin r)) = (r \<noteq> 0)"
| "py_bool (PFloat _) = True"
| "py_bool (PStr s) = (s \<noteq> [])"
| "py_bool (PList xs) = (xs \<noteq> [])"
| "py_bool (PDict kvs) = (kvs \<noteq> [])"

definition digit_char :: "nat \<Rightarrow> char" where
  "digit_char d = char_of (48 + d)"

function dec_nat :: "nat \<Rightarrow> string" where
  "dec_nat n = (if n < 10 then [digit_char n] else dec_nat (n div 10) @ [digit_char (n mod 10)])"
  by pat_completeness auto
termination
  by (relation "measure (\<lambda>n. n)") auto

declare dec_nat.simps [simp del]

definition dec_int :: "int \<Rightarrow> string" where
  "dec_int i = (if i < 0 then CHR ''-'' # dec_nat (nat (- i)) else dec_nat (nat i))"

text \<open>\<open>str(v)\<close>; for a float, a list or a dict it is the text given by \<open>repr_of\<close>.\<close>

fun py_str :: "builtins \<Rightarrow> pyval \<Rightarrow> string" where
  "py_str bi PNone = ''None''"
| "py_str bi (PBool b) = (if b then ''True'' else ''False'')"
| "py_str bi (PInt n) = dec_int n"
| "py_str bi (PStr s) = s"
| "py_str bi v = repr_of bi v"

fun starts_with :: "string \<Rightarrow> string \<Rightarrow> bool" where
  "starts_with s [] = True"
| "starts_with [] (k # ks) = False"
| "starts_with (c # cs) (k # ks) = (c = k \<and> starts_with cs ks)"

fun is_substring :: "string \<Rightarrow> string \<Rightarrow> bool" where
  "is_substring k [] = (k = [])"
| "is_substring k (c # cs) = (starts_with (c # cs) k \<or> is_substring k cs)"

text \<open>\<open>key in container\<close>: key of a dict, substring of a string, element of a list.\<close>

fun py_contains :: "string \<Rightarrow> pyval \<Rightarrow> py_exn + bool" where
  "py_contains k (PDict kvs) = Inr (map_of kvs k \<noteq> None)"
| "py_contains k (PStr s) = Inr (is_substring k s)"
| "py_contains k (PList xs) = Inr (PStr k \<in> set xs)"
| "py_contains k _ = Inl TypeError"

text \<open>\<open>container[key]\<close> with a string key.\<close>

fun py_getitem :: "pyval \<Rightarrow> string \<Rightarrow> py_exn + pyval" where
  "py_getitem (PDict kvs) k = (case map_of kvs k of None \<Rightarrow> Inl KeyError | Some v \<Rightarrow> Inr v)"
| "py_getitem _ k = Inl TypeError"

section \<open>The sensor and what it does to the outside\<close>

text \<open>
  Every call of the logger, of the MQTT client and of \<open>stop_event.wait\<close> is recorded, in
  order, in the field \<open>trace\<close>. The other fields are the attributes set by \<open>__init__\<close>.
  A log line is kept as its level and a constructor holding the values formatted into it.
\<close>

type_synonym reading = "pyfloat \<times> pyfloat"

datatype level = DEBUG | INFO | WARNING | ERROR

datatype msg =
    ConnectedOk
  | SubscribedTo
  | FailedConnect int
  | UnexpectedDisconnect int
  | DisconnectedMsg
  | ReceivedMessage pyval
  | FailedDecode
  | ErrorProcessing py_exn
  | RequestedAttributes
  | FailedRequest
  | UpdatedInterval int int
  | UpdatedEnabled bool bool
  | UpdatedFirmware string string
  | InvalidAttribute py_exn
  | SimulatingOta string
  | OtaCompleted
  | NotConnectedSkip
  | DisabledSkip
  | PublishedTelemetry reading
  | FailedPublish int reading
  | ErrorPublishing
  | ReconnectAttempt int int int
  | ReconnectOk
  | ReconnectFailed
  | MaxAttemptsReached
  | StartingLoop
  | LoopStopped
  | StoppingSensor

datatype event =
    Log level msg
  | Subscribe
  | PublishRequest
  | PublishTelemetry reading
  | Reconnect
  | Wait int

record sensor =
  interval :: int
  enabled :: bool
  firmware_version :: string
  stop_event :: bool
  connected :: bool
  reconnect_delay :: int
  max_reconnect_attempts :: int
  reconnect_attempts :: int
  trace :: "event list"

definition init :: sensor where
  "init = \<lparr> interval = 5, enabled = True, firmware_version = ''1.0'',
            stop_event = False, connected = False,
            reconnect_delay = 5, max_reconnect_attempts = 5, reconnect_attempts = 0,
            trace = [] \<rparr>"

definition emit :: "event \<Rightarrow> sensor \<Rightarrow> sensor" where
  "emit e s = s\<lparr>trace := trace s @ [e]\<rparr>"

definition log :: "level \<Rightarrow> msg \<Rightarrow> sensor \<Rightarrow> sensor" where
  "log l m s = emit (Log l m) s"

subsection \<open>\<open>_update_attributes\<close> and \<open>_simulate_ota\<close>\<close>

definition simulate_ota :: "sensor \<Rightarrow> sensor" where
  "simulate_ota s = log INFO OtaCompleted (log INFO (SimulatingOta (firmware_version s)) s)"

text \<open>
  The three \<open>if\<close> blocks of the \<open>try\<close> body. Each one raises, if it does, before it
  assigns: \<open>Inl e\<close> is the exception, with the sensor as it was on entry to the block.
\<close>

definition update_interval :: "builtins \<Rightarrow> sensor \<Rightarrow> pyval \<Rightarrow> py_exn + sensor" where
  "update_interval bi s attributes =
     (case py_contains ''interval'' attributes of
        Inl e \<Rightarrow> Inl e
      | Inr False \<Rightarrow> Inr s
      | Inr True \<Rightarrow>
          (case py_getitem attributes ''interval'' of
             Inl e \<Rightarrow> Inl e
           | Inr v \<Rightarrow>
               (case py_int bi v of
                  Inl e \<Rightarrow> Inl e
                | Inr n \<Rightarrow>
                    let old_interval = interval s;
                        s1 = s\<lparr>interval := max 1 n\<rparr>
                    in Inr (if old_interval \<noteq> interval s1
                            then log INFO (UpdatedInterval old_interval (interval s1)) s1
                            else s1))))"

definition update_enabled :: "sensor \<Rightarrow> pyval \<Rightarrow> py_exn + sensor" where
  "update_enabled s attributes =
     (case py_contains ''enabled'' attributes of
        Inl e \<Rightarrow> Inl e
      | Inr False \<Rightarrow> Inr s
      | Inr True \<Rightarrow>
          (case py_getitem attributes ''enabled'' of
             Inl e \<Rightarrow> Inl e
           | Inr v \<Rightarrow>
               let old_enabled = enabled s;
                   s1 = s\<lparr>enabled := py_bool v\<rparr>
               in Inr (if old_enabled \<noteq> enabled s1
                       then log INFO (UpdatedEnabled old_enabled (enabled s1)) s1
                       else s1)))"

definition update_firmware :: "builtins \<Rightarrow> sensor \<Rightarrow> pyval \<Rightarrow> py_exn + sensor" where
  "update_firmware bi s attributes =
     (case py_contains ''firmware_version'' attributes of
        Inl e \<Rightarrow> Inl e
      | Inr False \<Rightarrow> Inr s
      | Inr True \<Rightarrow>
          (case py_getitem attributes ''firmware_version'' of
             Inl e \<Rightarrow> Inl e
           | Inr v \<Rightarrow>
               let old_version = firmware_version s;
                   s1 = s\<lparr>firmware_version := py_str bi v\<rparr>
               in Inr (if old_version \<noteq> firmware_version s1
                       then simulate_ota
                              (log INFO (UpdatedFirmware old_version (firmware_version s1)) s1)
                       else s1)))"

text \<open>
  \<open>except (ValueError, TypeError)\<close>: these two (and \<open>UnicodeDecodeError\<close>, a subclass of
  \<open>ValueError\<close>) are logged and the call returns; any other exception leaves the call. The result is the exception that leaves the call, if any, and
  the sensor at that point.
\<close>

definition except_value_type :: "py_exn \<Rightarrow> sensor \<Rightarrow> py_exn option \<times> sensor" where
  "except_value_type e s =
     (if e = ValueError \<or> e = TypeError \<or> e = UnicodeDecodeError
      then (None, log ERROR (InvalidAttribute e) s)
      else (Some e, s))"

definition update_attributes ::
  "builtins \<Rightarrow> sensor \<Rightarrow> pyval \<Rightarrow> py_exn option \<times> sensor" where
  "update_attributes bi s attributes =
     (case update_interval bi s attributes of
        Inl e \<Rightarrow> except_value_type e s
      | Inr s1 \<Rightarrow>
          (case update_enabled s1 attributes of
             Inl e \<Rightarrow> except_value_type e s1
           | Inr s2 \<Rightarrow>
               (case update_firmware bi s2 attributes of
                  Inl e \<Rightarrow> except_value_type e s2
                | Inr s3 \<Rightarrow> (None, s3))))"

subsection \<open>The transport callbacks\<close>

text \<open>
  An inbound message either fails to decode as text, or fails to parse as JSON, or parses
  to a value.
\<close>

datatype inbound = BadBytes | BadJson | Decoded pyval

definition except_exception :: "py_exn option \<times> sensor \<Rightarrow> sensor" where
  "except_exception r =
     (case r of (None, s) \<Rightarrow> s | (Some e, s) \<Rightarrow> log ERROR (ErrorProcessing e) s)"

definition on_message :: "builtins \<Rightarrow> sensor \<Rightarrow> inbound \<Rightarrow> sensor" where
  "on_message bi s m =
     (case m of
        BadBytes \<Rightarrow> log ERROR (ErrorProcessing UnicodeDecodeError) s
      | BadJson \<Rightarrow> log ERROR FailedDecode s
      | Decoded payload \<Rightarrow>
          let s0 = log INFO (ReceivedMessage payload) s in
          (case py_contains ''shared'' payload of
             Inl e \<Rightarrow> log ERROR (ErrorProcessing e) s0
           | Inr True \<Rightarrow>
               (case py_getitem payload ''shared'' of
                  Inl e \<Rightarrow> log ERROR (ErrorProcessing e) s0
                | Inr shared \<Rightarrow> except_exception (update_attributes bi s0 shared))
           | Inr False \<Rightarrow>
               (case py_contains ''response'' payload of
                  Inl e \<Rightarrow> log ERROR (ErrorProcessing e) s0
                | Inr True \<Rightarrow> except_exception (update_attributes bi s0 payload)
                | Inr False \<Rightarrow> s0)))"

text \<open>
  \<open>_request_attributes\<close>: \<open>request_ok\<close> says whether the client's \<open>publish\<close> returned; when
  it raised, the exception is logged.
\<close>

definition request_attributes :: "sensor \<Rightarrow> bool \<Rightarrow> sensor" where
  "request_attributes s request_ok =
     (let s1 = emit PublishRequest s
      in if request_ok then log INFO RequestedAttributes s1 else log ERROR FailedRequest s1)"

definition on_connect :: "sensor \<Rightarrow> int \<Rightarrow> bool \<Rightarrow> sensor" where
  "on_connect s rc request_ok =
     (if rc = 0 then
        let s1 = log INFO ConnectedOk s;
            s2 = s1\<lparr>connected := True, reconnect_attempts := 0\<rparr>;
            s3 = log INFO SubscribedTo (emit Subscribe s2)
        in request_attributes s3 request_ok
      else (log ERROR (FailedConnect rc) s)\<lparr>connected := False\<rparr>)"

definition on_disconnect :: "sensor \<Rightarrow> int \<Rightarrow> sensor" where
  "on_disconnect s rc =
     (if rc \<noteq> 0 then log WARNING (UnexpectedDisconnect rc) s
      else log INFO DisconnectedMsg s)\<lparr>connected := False\<rparr>"

text \<open>\<open>stop\<close> up to \<open>self.stop_event.set()\<close>, which is what the telemetry thread sees.\<close>

definition stop :: "sensor \<Rightarrow> sensor" where
  "stop s = (log INFO StoppingSensor s)\<lparr>stop_event := True\<rparr>"

section \<open>The telemetry thread and its environment\<close>

text \<open>
  The callbacks run on the client's network thread and \<open>stop\<close> on the main thread. They
  are taken to run, each one as a whole, only while the telemetry thread is blocked in
  \<open>stop_event.wait\<close>. A run is described by a script:
  for each blocking wait, in order, the calls that arrive while the thread is blocked.
  When the script is used up, the stop signal is taken to arrive. The results of the
  client's \<open>reconnect\<close> and \<open>publish\<close> calls and the generated readings are given by the
  number of the call.
\<close>

datatype callback =
    CbConnect int bool
  | CbDisconnect int
  | CbMessage inbound
  | CbStop

datatype publish_result = PublishRc int | PublishRaises

record world =
  waits :: "callback list list"
  reconnect_ok :: "nat \<Rightarrow> bool"
  reconnects_done :: nat
  publish_script :: "nat \<Rightarrow> reading \<times> publish_result"
  publishes_done :: nat

fun deliver1 :: "builtins \<Rightarrow> sensor \<Rightarrow> callback \<Rightarrow> sensor" where
  "deliver1 bi s (CbConnect rc request_ok) = on_connect s rc request_ok"
| "deliver1 bi s (CbDisconnect rc) = on_disconnect s rc"
| "deliver1 bi s (CbMessage m) = on_message bi s m"
| "deliver1 bi s CbStop = stop s"

definition deliver :: "builtins \<Rightarrow> sensor \<Rightarrow> callback list \<Rightarrow> sensor" where
  "deliver bi s cbs = foldl (deliver1 bi) s cbs"

text \<open>
  \<open>self.stop_event.wait(t)\<close>: returns at once when the event is set; otherwise blocks, the
  calls of the script arrive, and it returns whether the event is set by then. The timeout
  is taken to be one that \<open>wait\<close> accepts: above \<open>threading.TIMEOUT_MAX\<close> it raises
  \<open>OverflowError\<close> on an unset event, which is not modelled.
\<close>

definition stop_event_wait ::
  "builtins \<Rightarrow> int \<Rightarrow> sensor \<Rightarrow> world \<Rightarrow> bool \<times> sensor \<times> world" where
  "stop_event_wait bi t s w =
     (let s1 = emit (Wait t) s
      in if stop_event s1 then (True, s1, w)
         else (case waits w of
                 [] \<Rightarrow> (True, stop s1, w)
               | cbs # rest \<Rightarrow>
                   let s2 = deliver bi s1 cbs
                   in (stop_event s2, s2, w\<lparr>waits := rest\<rparr>)))"

definition MQTT_ERR_SUCCESS :: int where
  "MQTT_ERR_SUCCESS = 0"

subsection \<open>\<open>_publish_telemetry\<close>\<close>

definition publish_telemetry :: "sensor \<Rightarrow> world \<Rightarrow> sensor \<times> world" where
  "publish_telemetry s w =
     (if \<not> connected s then (log WARNING NotConnectedSkip s, w)
      else if \<not> enabled s then (log DEBUG DisabledSkip s, w)
      else
        (case publish_script w (publishes_done w) of
           (data, result) \<Rightarrow>
             let s1 = emit (PublishTelemetry data) s;
                 w1 = w\<lparr>publishes_done := publishes_done w + 1\<rparr>
             in (case result of
                   PublishRc rc \<Rightarrow>
                     if rc = MQTT_ERR_SUCCESS then (log INFO (PublishedTelemetry data) s1, w1)
                     else (log WARNING (FailedPublish rc data) s1, w1)
                 | PublishRaises \<Rightarrow> (log ERROR ErrorPublishing s1, w1))))"

subsection \<open>\<open>_reconnect_with_backoff\<close>\<close>

text \<open>The \<open>if\<close> after the loop.\<close>

definition max_attempts_check :: "sensor \<Rightarrow> sensor" where
  "max_attempts_check s =
     (if reconnect_attempts s \<ge> max_reconnect_attempts s
      then log ERROR MaxAttemptsReached s else s)"

text \<open>
  \<open>self.reconnect_delay * (2 ** (self.reconnect_attempts - 1))\<close>, the counter having just
  been incremented. The counter starts at 0 and is only incremented or reset to 0, so the
  exponent is not negative there.
\<close>

definition wait_time :: "sensor \<Rightarrow> int" where
  "wait_time s = reconnect_delay s * 2 ^ nat (reconnect_attempts s - 1)"

function reconnect_with_backoff ::
  "builtins \<Rightarrow> sensor \<Rightarrow> world \<Rightarrow> sensor \<times> world" where
  "reconnect_with_backoff bi s w =
     (if \<not> connected s \<and> reconnect_attempts s < max_reconnect_attempts s then
        (let s1 = s\<lparr>reconnect_attempts := reconnect_attempts s + 1\<rparr>;
             s2 = log INFO (ReconnectAttempt (reconnect_attempts s1)
                              (max_reconnect_attempts s1) (wait_time s1)) s1
         in case stop_event_wait bi (wait_time s1) s2 w of
              (stopped, s3, w3) \<Rightarrow>
                if stopped then (max_attempts_check s3, w3)
                else
                  (let s4 = emit Reconnect s3;
                       w4 = w3\<lparr>reconnects_done := reconnects_done w3 + 1\<rparr>
                   in if reconnect_ok w3 (reconnects_done w3)
                      then (log INFO ReconnectOk s4, w4)
                      else reconnect_with_backoff bi (log WARNING ReconnectFailed s4) w4))
      else (max_attempts_check s, w))"
  by pat_completeness auto
termination
proof (relation "measure (\<lambda>(bi, s, w). length (waits w))")
  show "wf (measure (\<lambda>(bi, s, w). length (waits w)))" by simp
next
  fix bi s w s1 s2 x stopped y s3 w3 s4 w4
  assume "(stopped, y) = stop_event_wait bi (wait_time s1) s2 w"
    and "(s3, w3) = y" and "\<not> stopped"
    and "w4 = w3\<lparr>reconnects_done := reconnects_done w3 + 1\<rparr>"
  then have "length (waits w3) < length (waits w)"
    by (auto simp: stop_event_wait_def Let_def split: if_splits list.splits)
  with \<open>w4 = _\<close>
  show "((bi, log WARNING ReconnectFailed s4, w4), (bi, s, w))
          \<in> measure (\<lambda>(bi, s, w). length (waits w))"
    by simp
qed

subsection \<open>Facts used for the termination of the telemetry loop\<close>


lemma emit_fields [simp]:
  "interval (emit e s) = interval s" "enabled (emit e s) = enabled s"
  "firmware_version (emit e s) = firmware_version s" "stop_event (emit e s) = stop_event s"
  "connected (emit e s) = connected s" "reconnect_delay (emit e s) = reconnect_delay s"
  "max_reconnect_attempts (emit e s) = max_reconnect_attempts s"
  "reconnect_attempts (emit e s) = reconnect_attempts s"
  "trace (emit e s) = trace s @ [e]"
  by (simp_all add: emit_def)

lemma log_fields [simp]:
  "interval (log l m s) = interval s" "enabled (log l m s) = enabled s"
  "firmware_version (log l m s) = firmware_version s" "stop_event (log l m s) = stop_event s"
  "connected (log l m s) = connected s" "reconnect_delay (log l m s) = reconnect_delay s"
  "max_reconnect_attempts (log l m s) = max_reconnect_attempts s"
  "reconnect_attempts (log l m s) = reconnect_attempts s"
  "trace (log l m s) = trace s @ [Log l m]"
  by (simp_all add: log_def)

lemma stop_event_wait_progress:
  "stop_event_wait r t s w = (b, s', w') \<Longrightarrow>
     length (waits w') \<le> length (waits w) \<and>
     (stop_event s' \<or> length (waits w') < length (waits w))"
  by (auto simp: stop_event_wait_def Let_def stop_def split: if_splits list.splits)

lemma publish_telemetry_waits: "publish_telemetry s w = (s', w') \<Longrightarrow> waits w' = waits w"
  by (auto simp: publish_telemetry_def Let_def split: if_splits prod.splits publish_result.splits)

declare reconnect_with_backoff.simps [simp del]

lemma reconnect_with_backoff_idle:
  "connected s \<or> \<not> reconnect_attempts s < max_reconnect_attempts s \<Longrightarrow>
     reconnect_with_backoff r s w = (max_attempts_check s, w)"
  by (subst reconnect_with_backoff.simps) auto

lemma reconnect_with_backoff_step:
  assumes "\<not> connected s" and "reconnect_attempts s < max_reconnect_attempts s"
    and "s1 = s\<lparr>reconnect_attempts := reconnect_attempts s + 1\<rparr>"
    and "stop_event_wait r (wait_time s1)
           (log INFO (ReconnectAttempt (reconnect_attempts s1) (max_reconnect_attempts s1)
                        (wait_time s1)) s1) w = (stopped, s3, w3)"
  shows "reconnect_with_backoff r s w =
           (if stopped then (max_attempts_check s3, w3)
            else if reconnect_ok w3 (reconnects_done w3)
            then (log INFO ReconnectOk (emit Reconnect s3),
                  w3\<lparr>reconnects_done := reconnects_done w3 + 1\<rparr>)
            else reconnect_with_backoff r (log WARNING ReconnectFailed (emit Reconnect s3))
                   (w3\<lparr>reconnects_done := reconnects_done w3 + 1\<rparr>))"
  using assms by (subst reconnect_with_backoff.simps) (simp add: Let_def)

lemma reconnect_with_backoff_waits:
  "length (waits (snd (reconnect_with_backoff r s w))) \<le> length (waits w)"
proof (induction r s w rule: reconnect_with_backoff.induct)
  case (1 r s w)
  show ?case
  proof (cases "\<not> connected s \<and> reconnect_attempts s < max_reconnect_attempts s")
    case False
    then show ?thesis by (simp add: reconnect_with_backoff_idle)
  next
    case True
    define s1 where "s1 = s\<lparr>reconnect_attempts := reconnect_attempts s + 1\<rparr>"
    define s2 where "s2 = log INFO (ReconnectAttempt (reconnect_attempts s1)
                              (max_reconnect_attempts s1) (wait_time s1)) s1"
    obtain stopped s3 w3 where sw: "stop_event_wait r (wait_time s1) s2 w = (stopped, s3, w3)"
      by (cases "stop_event_wait r (wait_time s1) s2 w") auto
    from stop_event_wait_progress [OF sw] have le: "length (waits w3) \<le> length (waits w)" by simp
    show ?thesis
    proof (cases "stopped \<or> reconnect_ok w3 (reconnects_done w3)")
      case True
      with \<open>\<not> connected s \<and> _\<close> sw le show ?thesis
        by (auto simp: reconnect_with_backoff_step [OF _ _ s1_def sw [unfolded s2_def]])
    next
      case False
      define s4 where "s4 = emit Reconnect s3"
      define w4 where "w4 = w3\<lparr>reconnects_done := reconnects_done w3 + 1\<rparr>"
      have "length (waits (snd (reconnect_with_backoff r (log WARNING ReconnectFailed s4) w4)))
              \<le> length (waits w4)"
        using "1.IH" [OF True s1_def s2_def sw [symmetric] refl _ s4_def w4_def] False by simp
      with False \<open>\<not> connected s \<and> _\<close> sw le show ?thesis
        by (auto simp: reconnect_with_backoff_step [OF _ _ s1_def sw [unfolded s2_def]]
                       s4_def w4_def)
    qed
  qed
qed

subsection \<open>\<open>_telemetry_loop\<close>\<close>

function telemetry_iterations ::
  "builtins \<Rightarrow> sensor \<Rightarrow> world \<Rightarrow> sensor \<times> world" where
  "telemetry_iterations bi s w =
     (if stop_event s then (s, w)
      else if \<not> connected s then
        (case reconnect_with_backoff bi s w of
           (s1, w1) \<Rightarrow>
             if \<not> connected s1 then
               (case stop_event_wait bi (reconnect_delay s1) s1 w1 of
                  (stopped, s2, w2) \<Rightarrow> telemetry_iterations bi s2 w2)
             else
               (case publish_telemetry s1 w1 of
                  (s2, w2) \<Rightarrow>
                    (case stop_event_wait bi (interval s2) s2 w2 of
                       (stopped, s3, w3) \<Rightarrow> telemetry_iterations bi s3 w3)))
      else
        (case publish_telemetry s w of
           (s2, w2) \<Rightarrow>
             (case stop_event_wait bi (interval s2) s2 w2 of
                (stopped, s3, w3) \<Rightarrow> telemetry_iterations bi s3 w3)))"
  by pat_completeness auto
termination
proof (relation "measure (\<lambda>(bi, s, w). if stop_event s then 0 else 1 + length (waits w))",
       goal_cases)
  case 1
  show ?case by simp
next
  case (2 bi s w s1 w1 stopped y s2 w2)
  from reconnect_with_backoff_waits [of bi s w] 2(3)
  have "length (waits w1) \<le> length (waits w)" by (metis snd_conv)
  moreover from 2 have "stop_event_wait bi (reconnect_delay s1) s1 w1 = (stopped, s2, w2)"
    by simp
  ultimately show ?case
    using 2(1) by (auto dest!: stop_event_wait_progress)
next
  case (3 bi s w s1 w1 s2 w2 stopped y s3 w3)
  from reconnect_with_backoff_waits [of bi s w] 3(3)
  have "length (waits w1) \<le> length (waits w)" by (metis snd_conv)
  moreover from 3 have "waits w2 = waits w1"
    by (metis publish_telemetry_waits)
  moreover from 3 have "stop_event_wait bi (interval s2) s2 w2 = (stopped, s3, w3)"
    by simp
  ultimately show ?case
    using 3(1) by (auto dest!: stop_event_wait_progress)
next
  case (4 bi s w s2 w2 stopped y s3 w3)
  from 4 have "waits w2 = waits w"
    by (metis publish_telemetry_waits)
  moreover from 4 have "stop_event_wait bi (interval s2) s2 w2 = (stopped, s3, w3)"
    by simp
  ultimately show ?case
    using 4(1) by (auto dest!: stop_event_wait_progress)
qed

declare telemetry_iterations.simps [simp del]

text \<open>The whole of \<open>_telemetry_loop\<close>: the \<open>while\<close> loop between its two log lines.\<close>

definition telemetry_loop :: "builtins \<Rightarrow> sensor \<Rightarrow> world \<Rightarrow> sensor \<times> world" where
  "telemetry_loop bi s w =
     (case telemetry_iterations bi (log INFO StartingLoop s) w of
        (s', w') \<Rightarrow> (log INFO LoopStopped s', w'))"

section \<open>Observations on traces and concrete inputs\<close>

text \<open>The events a transport callback can cause: log lines, the subscription, the request.\<close>

fun is_callback_event :: "event \<Rightarrow> bool" where
  "is_callback_event (Log l m) = True"
| "is_callback_event Subscribe = True"
| "is_callback_event PublishRequest = True"
| "is_callback_event _ = False"


text \<open>The fields an attribute update never touches.\<close>

definition same_control :: "sensor \<Rightarrow> sensor \<Rightarrow> bool" where
  "same_control s s' \<longleftrightarrow>
     stop_event s' = stop_event s \<and> connected s' = connected s \<and>
     reconnect_delay s' = reconnect_delay s \<and>
     max_reconnect_attempts s' = max_reconnect_attempts s \<and>
     reconnect_attempts s' = reconnect_attempts s"

definition attribute_effect :: "sensor \<Rightarrow> sensor \<Rightarrow> bool" where
  "attribute_effect s s' \<longleftrightarrow>
     same_control s s' \<and> (1 \<le> interval s \<longrightarrow> 1 \<le> interval s') \<and>
     (\<exists>tr. trace s' = trace s @ tr \<and> list_all is_callback_event tr)"

subsection \<open>Builtins for the concrete inputs\<close>

text \<open>
  The concrete inputs below hold ASCII strings only, and no float, list or dict is printed.
  There \<open>int\<close> of a string is \<open>ascii_int\<close>: the six ASCII whitespace characters are
  skipped at both ends, a sign may come first, and the rest is decimal digits, where a
  single underscore may stand between two digits. A string with any other character is
  refused by \<open>ascii_int\<close>, and it puts no limit on the number of digits: the non-ASCII
  whitespace and digits that \<open>int\<close> accepts, and the limit of CPython 3.11, are outside it.
\<close>

definition is_space :: "char \<Rightarrow> bool" where
  "is_space c = (c \<in> set [CHR '' '', CHR 0x09, CHR 0x0A, CHR 0x0B, CHR 0x0C, CHR 0x0D])"

definition strip :: "string \<Rightarrow> string" where
  "strip s = rev (dropWhile is_space (rev (dropWhile is_space s)))"

definition is_digit :: "char \<Rightarrow> bool" where
  "is_digit c = (c \<in> set ''0123456789'')"

definition digit_val :: "char \<Rightarrow> nat" where
  "digit_val c = of_char c - 48"

text \<open>
  Decimal digits after the first one; a single underscore may stand between two digits.
\<close>

fun parse_digits :: "nat \<Rightarrow> string \<Rightarrow> nat option" where
  "parse_digits acc [] = Some acc"
| "parse_digits acc [c] = (if is_digit c then Some (10 * acc + digit_val c) else None)"
| "parse_digits acc (c # d # cs) =
     (if is_digit c then parse_digits (10 * acc + digit_val c) (d # cs)
      else if c = CHR ''_'' \<and> is_digit d then parse_digits (10 * acc + digit_val d) cs
      else None)"

definition parse_nat :: "string \<Rightarrow> nat option" where
  "parse_nat s = (case s of [] \<Rightarrow> None
                  | c # cs \<Rightarrow> if is_digit c then parse_digits (digit_val c) cs else None)"

text \<open>Surrounding whitespace, an optional sign, decimal digits.\<close>

definition ascii_int :: "string \<Rightarrow> int option" where
  "ascii_int s =
     (case strip s of
        [] \<Rightarrow> None
      | c # cs \<Rightarrow>
          if c = CHR ''-'' then map_option (\<lambda>n. - int n) (parse_nat cs)
          else if c = CHR ''+'' then map_option int (parse_nat cs)
          else map_option int (parse_nat (c # cs)))"

definition plain :: builtins where
  "plain = \<lparr> int_of_str = ascii_int, repr_of = (\<lambda>v. []) \<rparr>"

definition bad_interval_update :: pyval where
  "bad_interval_update =
     PDict [(''interval'', PStr ''abc''), (''enabled'', PBool False),
            (''firmware_version'', PStr ''2.0'')]"

definition disabling_update :: pyval where
  "disabling_update = PDict [(''interval'', PStr ''abc''), (''enabled'', PBool False)]"

definition flat_response :: pyval where
  "flat_response = PDict [(''interval'', PInt 10)]"


text \<open>A successful connection report, the one callback that resets the attempt counter.\<close>

fun is_connect_ok :: "callback \<Rightarrow> bool" where
  "is_connect_ok (CbConnect rc request_ok) = (rc = 0)"
| "is_connect_ok _ = False"

text \<open>What any callback may change.\<close>

definition callback_effect :: "sensor \<Rightarrow> sensor \<Rightarrow> bool" where
  "callback_effect s s' \<longleftrightarrow>
     max_reconnect_attempts s' = max_reconnect_attempts s \<and>
     reconnect_delay s' = reconnect_delay s \<and>
     (stop_event s \<longrightarrow> stop_event s') \<and>
     (1 \<le> interval s \<longrightarrow> 1 \<le> interval s') \<and>
     (reconnect_attempts s' = reconnect_attempts s \<or> reconnect_attempts s' = 0) \<and>
     (\<exists>tr. trace s' = trace s @ tr \<and> list_all is_callback_event tr)"

text \<open>The attempt counter is within its bounds.\<close>

definition counter_ok :: "sensor \<Rightarrow> bool" where
  "counter_ok s \<longleftrightarrow> 0 \<le> reconnect_attempts s \<and> reconnect_attempts s \<le> max_reconnect_attempts s"

text \<open>What a reconnect cycle, a publish or a wait may change.\<close>

definition cycle_effect :: "sensor \<Rightarrow> sensor \<Rightarrow> bool" where
  "cycle_effect s s' \<longleftrightarrow>
     max_reconnect_attempts s' = max_reconnect_attempts s \<and>
     reconnect_delay s' = reconnect_delay s \<and>
     (1 \<le> interval s \<longrightarrow> 1 \<le> interval s') \<and>
     (counter_ok s \<longrightarrow> counter_ok s') \<and>
     (\<exists>tr. trace s' = trace s @ tr)"

text \<open>The number of calls of the client's \<open>reconnect\<close> in a trace.\<close>

definition reconnect_calls :: "event list \<Rightarrow> nat" where
  "reconnect_calls tr = length (filter (\<lambda>e. e = Reconnect) tr)"

text \<open>No successful connection is reported during any wait of the script.\<close>

definition no_connect_ok :: "world \<Rightarrow> bool" where
  "no_connect_ok w = list_all (list_all (\<lambda>cb. \<not> is_connect_ok cb)) (waits w)"

text \<open>
  A broker that stays unreachable: \<open>n\<close> waits during which nothing arrives, every
  \<open>reconnect\<close> raising.
\<close>

definition unreachable_broker :: "nat \<Rightarrow> world" where
  "unreachable_broker n =
     \<lparr> waits = replicate n [], reconnect_ok = (\<lambda>k. False), reconnects_done = 0,
       publish_script = (\<lambda>k. ((FFin 20, FFin 50), PublishRc 0)), publishes_done = 0 \<rparr>"

text \<open>
  During the first wait the connection is reported established, and then the stop signal
  is given.
\<close>

definition connect_then_stop :: world where
  "connect_then_stop =
     \<lparr> waits = [[CbConnect 0 True, CbStop]], reconnect_ok = (\<lambda>k. False), reconnects_done = 0,
       publish_script = (\<lambda>k. ((FFin 20, FFin 50), PublishRc 0)), publishes_done = 0 \<rparr>"

section \<open>Effects of an attribute update\<close>


lemma attribute_effect_refl [simp]:
  "attribute_effect s s" "attribute_effect s (log l m s)"
  by (simp_all add: attribute_effect_def same_control_def)

lemma attribute_effect_trans:
  "attribute_effect a b \<Longrightarrow> attribute_effect b c \<Longrightarrow> attribute_effect a c"
  by (auto simp: attribute_effect_def same_control_def)

lemma update_interval_effect: "update_interval r s a = Inr s' \<Longrightarrow> attribute_effect s s'"
  by (auto simp: update_interval_def attribute_effect_def same_control_def Let_def
           split: sum.splits bool.splits if_splits)

lemma update_enabled_effect: "update_enabled s a = Inr s' \<Longrightarrow> attribute_effect s s'"
  by (auto simp: update_enabled_def attribute_effect_def same_control_def Let_def
           split: sum.splits bool.splits if_splits)

lemma update_firmware_effect: "update_firmware r s a = Inr s' \<Longrightarrow> attribute_effect s s'"
  by (auto simp: update_firmware_def attribute_effect_def same_control_def simulate_ota_def
                 Let_def
           split: sum.splits bool.splits if_splits)

lemma except_value_type_effect: "except_value_type e s = (x, s') \<Longrightarrow> attribute_effect s s'"
  by (auto simp: except_value_type_def split: if_splits)

lemma update_attributes_effect:
  assumes "update_attributes r s a = (x, s')"
  shows "attribute_effect s s'"
proof (cases "update_interval r s a")
  case (Inl e)
  with assms show ?thesis
    by (auto simp: update_attributes_def dest: except_value_type_effect)
next
  case i: (Inr s1)
  then have e1: "attribute_effect s s1" by (rule update_interval_effect)
  show ?thesis
  proof (cases "update_enabled s1 a")
    case (Inl e)
    with assms i have "attribute_effect s1 s'"
      by (auto simp: update_attributes_def dest: except_value_type_effect)
    with e1 show ?thesis by (rule attribute_effect_trans)
  next
    case en: (Inr s2)
    then have e2: "attribute_effect s1 s2" by (rule update_enabled_effect)
    have "attribute_effect s2 s'"
    proof (cases "update_firmware r s2 a")
      case (Inl e)
      with assms i en show ?thesis
        by (auto simp: update_attributes_def dest: except_value_type_effect)
    next
      case (Inr s3)
      with assms i en show ?thesis
        by (auto simp: update_attributes_def dest: update_firmware_effect)
    qed
    with e1 e2 show ?thesis by (blast intro: attribute_effect_trans)
  qed
qed

section \<open>Induction over the two loops\<close>

lemma reconnect_with_backoff_cases [case_names idle attempt]:
  assumes idle: "\<And>s w. connected s \<or> \<not> reconnect_attempts s < max_reconnect_attempts s \<Longrightarrow>
                   P s w (max_attempts_check s, w)"
    and attempt: "\<And>s w s1 stopped s3 w3 s4 w4.
        \<not> connected s \<Longrightarrow> reconnect_attempts s < max_reconnect_attempts s \<Longrightarrow>
        s1 = s\<lparr>reconnect_attempts := reconnect_attempts s + 1\<rparr> \<Longrightarrow>
        stop_event_wait r (wait_time s1)
          (log INFO (ReconnectAttempt (reconnect_attempts s1) (max_reconnect_attempts s1)
                       (wait_time s1)) s1) w = (stopped, s3, w3) \<Longrightarrow>
        s4 = emit Reconnect s3 \<Longrightarrow>
        w4 = w3\<lparr>reconnects_done := reconnects_done w3 + 1\<rparr> \<Longrightarrow>
        (\<not> stopped \<Longrightarrow> \<not> reconnect_ok w3 (reconnects_done w3) \<Longrightarrow>
           P (log WARNING ReconnectFailed s4) w4
             (reconnect_with_backoff r (log WARNING ReconnectFailed s4) w4)) \<Longrightarrow>
        P s w (if stopped then (max_attempts_check s3, w3)
               else if reconnect_ok w3 (reconnects_done w3) then (log INFO ReconnectOk s4, w4)
               else reconnect_with_backoff r (log WARNING ReconnectFailed s4) w4)"
  shows "P s w (reconnect_with_backoff r s w)"
  using idle attempt
proof (induction r s w rule: reconnect_with_backoff.induct)
  case (1 r s w)
  note idle = "1.prems"(1) and attempt = "1.prems"(2)
  show ?case
  proof (cases "\<not> connected s \<and> reconnect_attempts s < max_reconnect_attempts s")
    case False
    then show ?thesis by (simp add: reconnect_with_backoff_idle idle)
  next
    case True
    define s1 where "s1 = s\<lparr>reconnect_attempts := reconnect_attempts s + 1\<rparr>"
    define s2 where "s2 = log INFO (ReconnectAttempt (reconnect_attempts s1)
                              (max_reconnect_attempts s1) (wait_time s1)) s1"
    obtain stopped s3 w3 where sw: "stop_event_wait r (wait_time s1) s2 w = (stopped, s3, w3)"
      by (cases "stop_event_wait r (wait_time s1) s2 w") auto
    define s4 where "s4 = emit Reconnect s3"
    define w4 where "w4 = w3\<lparr>reconnects_done := reconnects_done w3 + 1\<rparr>"
    have ih: "\<not> stopped \<Longrightarrow> \<not> reconnect_ok w3 (reconnects_done w3) \<Longrightarrow>
           P (log WARNING ReconnectFailed s4) w4
             (reconnect_with_backoff r (log WARNING ReconnectFailed s4) w4)"
      by (rule "1.IH" [OF True s1_def s2_def sw [symmetric] refl _ s4_def w4_def _ idle attempt])
    from True have nc: "\<not> connected s" and lt: "reconnect_attempts s < max_reconnect_attempts s"
      by simp_all
    have eq: "reconnect_with_backoff r s w =
        (if stopped then (max_attempts_check s3, w3)
         else if reconnect_ok w3 (reconnects_done w3) then (log INFO ReconnectOk s4, w4)
         else reconnect_with_backoff r (log WARNING ReconnectFailed s4) w4)"
      unfolding s4_def w4_def
      by (rule reconnect_with_backoff_step [OF nc lt s1_def sw [unfolded s2_def]])
    show ?thesis
      unfolding eq
      by (rule attempt [OF nc lt s1_def sw [unfolded s2_def] s4_def w4_def], rule ih)
  qed
qed

lemma telemetry_iterations_cases [case_names stopped reconnect_failed reconnected connected]:
  assumes stopped: "\<And>s w. stop_event s \<Longrightarrow> P s w (s, w)"
    and reconnect_failed: "\<And>s w s1 w1 b s2 w2.
        \<not> stop_event s \<Longrightarrow> \<not> connected s \<Longrightarrow>
        reconnect_with_backoff r s w = (s1, w1) \<Longrightarrow> \<not> connected s1 \<Longrightarrow>
        stop_event_wait r (reconnect_delay s1) s1 w1 = (b, s2, w2) \<Longrightarrow>
        P s2 w2 (telemetry_iterations r s2 w2) \<Longrightarrow>
        P s w (telemetry_iterations r s2 w2)"
    and reconnected: "\<And>s w s1 w1 s2 w2 b s3 w3.
        \<not> stop_event s \<Longrightarrow> \<not> connected s \<Longrightarrow>
        reconnect_with_backoff r s w = (s1, w1) \<Longrightarrow> connected s1 \<Longrightarrow>
        publish_telemetry s1 w1 = (s2, w2) \<Longrightarrow>
        stop_event_wait r (interval s2) s2 w2 = (b, s3, w3) \<Longrightarrow>
        P s3 w3 (telemetry_iterations r s3 w3) \<Longrightarrow>
        P s w (telemetry_iterations r s3 w3)"
    and connected: "\<And>s w s2 w2 b s3 w3.
        \<not> stop_event s \<Longrightarrow> connected s \<Longrightarrow>
        publish_telemetry s w = (s2, w2) \<Longrightarrow>
        stop_event_wait r (interval s2) s2 w2 = (b, s3, w3) \<Longrightarrow>
        P s3 w3 (telemetry_iterations r s3 w3) \<Longrightarrow>
        P s w (telemetry_iterations r s3 w3)"
  shows "P s w (telemetry_iterations r s w)"
  using stopped reconnect_failed reconnected connected
proof (induction r s w rule: telemetry_iterations.induct)
  case (1 r s w)
  note stopped = "1.prems"(1) and reconnect_failed = "1.prems"(2)
    and reconnected = "1.prems"(3) and connected = "1.prems"(4)
  show ?case
  proof (cases "stop_event s")
    case True
    then show ?thesis by (subst telemetry_iterations.simps) (simp add: stopped)
  next
    case ns: False
    show ?thesis
    proof (cases "connected s")
      case c: True
      obtain s2 w2 where p: "publish_telemetry s w = (s2, w2)"
        by (cases "publish_telemetry s w") auto
      obtain b s3 w3 where sw: "stop_event_wait r (interval s2) s2 w2 = (b, s3, w3)"
        by (cases "stop_event_wait r (interval s2) s2 w2") auto
      have nn: "\<not> \<not> connected s" using c by simp
      have "P s3 w3 (telemetry_iterations r s3 w3)"
        by (rule "1.IH"(3) [OF ns nn p [symmetric] sw [symmetric] refl "1.prems"])
      from connected [OF ns c p sw this] show ?thesis
        using ns c p sw by (subst telemetry_iterations.simps) simp
    next
      case nc: False
      obtain s1 w1 where rc: "reconnect_with_backoff r s w = (s1, w1)"
        by (cases "reconnect_with_backoff r s w") auto
      show ?thesis
      proof (cases "connected s1")
        case c1: True
        obtain s2 w2 where p: "publish_telemetry s1 w1 = (s2, w2)"
          by (cases "publish_telemetry s1 w1") auto
        obtain b s3 w3 where sw: "stop_event_wait r (interval s2) s2 w2 = (b, s3, w3)"
          by (cases "stop_event_wait r (interval s2) s2 w2") auto
        have nn: "\<not> \<not> connected s1" using c1 by simp
        have "P s3 w3 (telemetry_iterations r s3 w3)"
          by (rule "1.IH"(2) [OF ns nc rc [symmetric] nn p [symmetric] sw [symmetric] refl
                                 "1.prems"])
        from reconnected [OF ns nc rc c1 p sw this] show ?thesis
          using ns nc rc c1 p sw by (subst telemetry_iterations.simps) simp
      next
        case nc1: False
        obtain b s2 w2 where sw: "stop_event_wait r (reconnect_delay s1) s1 w1 = (b, s2, w2)"
          by (cases "stop_event_wait r (reconnect_delay s1) s1 w1") auto
        have "P s2 w2 (telemetry_iterations r s2 w2)"
          by (rule "1.IH"(1) [OF ns nc rc [symmetric] nc1 sw [symmetric] refl "1.prems"])
        from reconnect_failed [OF ns nc rc nc1 sw this] show ?thesis
          using ns nc rc nc1 sw by (subst telemetry_iterations.simps) simp
      qed
    qed
  qed
qed

section \<open>Effects of the callbacks and of a wait\<close>

lemma callback_effect_refl [simp]: "callback_effect s s"
  by (simp add: callback_effect_def)

lemma callback_effect_trans:
  "callback_effect a b \<Longrightarrow> callback_effect b c \<Longrightarrow> callback_effect a c"
  unfolding callback_effect_def by (elim conjE exE) (auto)

lemma attribute_effect_callback: "attribute_effect s s' \<Longrightarrow> callback_effect s s'"
  by (auto simp: attribute_effect_def same_control_def callback_effect_def)

lemma log_callback_effect [simp]: "callback_effect s (log l m s)"
  by (simp add: callback_effect_def)

lemma except_exception_effect:
  "attribute_effect s (snd r) \<Longrightarrow> callback_effect s (except_exception r)"
  by (cases r) (auto simp: except_exception_def attribute_effect_def same_control_def
                           callback_effect_def split: option.splits)

lemma on_message_effect: "callback_effect s (on_message r s m)"
proof (cases m)
  case (Decoded payload)
  define s0 where "s0 = log INFO (ReceivedMessage payload) s"
  have s0: "callback_effect s s0" by (simp add: s0_def)
  have upd: "callback_effect s0 (except_exception (update_attributes r s0 a))" for a
    by (rule except_exception_effect)
       (metis update_attributes_effect prod.collapse)
  have "callback_effect s0 (on_message r s (Decoded payload))"
    using upd
    by (auto simp: on_message_def Let_def s0_def [symmetric]
             split: sum.splits bool.splits)
  with s0 Decoded show ?thesis by (auto intro: callback_effect_trans)
qed (simp_all add: on_message_def)

lemma on_connect_effect: "callback_effect s (on_connect s rc ok)"
  by (simp add: on_connect_def request_attributes_def callback_effect_def Let_def)

lemma on_disconnect_effect: "callback_effect s (on_disconnect s rc)"
  by (simp add: on_disconnect_def callback_effect_def)

lemma stop_effect: "callback_effect s (stop s)"
  by (simp add: stop_def callback_effect_def)

lemma deliver1_effect: "callback_effect s (deliver1 r s cb)"
  by (cases cb) (simp_all add: on_message_effect on_connect_effect on_disconnect_effect
                               stop_effect)

lemma deliver_effect: "callback_effect s (deliver r s cbs)"
  unfolding deliver_def
proof (induction cbs arbitrary: s)
  case Nil
  show ?case by simp
next
  case (Cons cb cbs)
  show ?case
    using deliver1_effect [of s r cb] Cons [of "deliver1 r s cb"]
    by (auto intro: callback_effect_trans)
qed

lemma on_message_attempts:
  "reconnect_attempts (on_message r s m) = reconnect_attempts s \<and>
   connected (on_message r s m) = connected s"
proof (cases m)
  case (Decoded payload)
  have upd: "reconnect_attempts (except_exception (update_attributes r s0 a))
               = reconnect_attempts s0 \<and>
             connected (except_exception (update_attributes r s0 a)) = connected s0" for a s0
    using update_attributes_effect [of r s0 a]
    by (cases "update_attributes r s0 a")
       (auto simp: except_exception_def attribute_effect_def same_control_def
             split: option.splits)
  show ?thesis
    using upd [of "log INFO (ReceivedMessage payload) s"] Decoded
    by (auto simp: on_message_def Let_def split: sum.splits bool.splits)
qed (simp_all add: on_message_def)

lemma deliver1_attempts:
  "\<not> is_connect_ok cb \<Longrightarrow> reconnect_attempts (deliver1 r s cb) = reconnect_attempts s"
  by (cases cb) (simp_all add: on_message_attempts on_connect_def on_disconnect_def stop_def)

lemma deliver_attempts:
  "list_all (\<lambda>cb. \<not> is_connect_ok cb) cbs \<Longrightarrow>
     reconnect_attempts (deliver r s cbs) = reconnect_attempts s"
  unfolding deliver_def
  by (induction cbs arbitrary: s) (simp_all add: deliver1_attempts)

lemma stop_event_wait_effect:
  assumes "stop_event_wait r t s w = (b, s', w')"
  shows "callback_effect (emit (Wait t) s) s' \<and> b = stop_event s'"
  using assms deliver_effect [of "emit (Wait t) s" r] stop_effect [of "emit (Wait t) s"]
  by (auto simp: stop_event_wait_def Let_def stop_def split: if_splits list.splits)

section \<open>Effects of a reconnect cycle and of the telemetry loop\<close>

lemma cycle_effect_refl [simp]: "cycle_effect s s" "cycle_effect s (log l m s)"
  "cycle_effect s (emit e s)"
  by (simp_all add: cycle_effect_def counter_ok_def)

lemma cycle_effect_trans: "cycle_effect a b \<Longrightarrow> cycle_effect b c \<Longrightarrow> cycle_effect a c"
  unfolding cycle_effect_def by (elim conjE exE) auto

lemma callback_effect_cycle: "callback_effect s s' \<Longrightarrow> cycle_effect s s'"
  by (auto simp: callback_effect_def cycle_effect_def counter_ok_def)

lemma max_attempts_check_effect [simp]: "cycle_effect s (max_attempts_check s)"
  by (simp add: max_attempts_check_def)

lemma stop_event_wait_cycle:
  "stop_event_wait r t s w = (b, s', w') \<Longrightarrow> cycle_effect s s'"
  by (drule stop_event_wait_effect)
     (blast intro: cycle_effect_trans [OF cycle_effect_refl(3)] callback_effect_cycle)

lemma increment_effect:
  "reconnect_attempts s < max_reconnect_attempts s \<Longrightarrow>
     cycle_effect s (s\<lparr>reconnect_attempts := reconnect_attempts s + 1\<rparr>)"
  by (simp add: cycle_effect_def counter_ok_def)

lemma reconnect_with_backoff_effect:
  "cycle_effect s (fst (reconnect_with_backoff r s w))"
proof (induct rule: reconnect_with_backoff_cases
         [where P = "\<lambda>s w res. cycle_effect s (fst res)"])
  case (idle s w)
  show ?case by simp
next
  case (attempt s w s1 stopped s3 w3 s4 w4)
  have a: "cycle_effect s s1"
    using attempt(2,3) by (simp add: increment_effect)
  have b: "cycle_effect s1 s3"
    using stop_event_wait_cycle [OF attempt(4)]
    by (blast intro: cycle_effect_trans [OF cycle_effect_refl(2)])
  from a b have c: "cycle_effect s s3" by (rule cycle_effect_trans)
  have d: "cycle_effect s3 (log l m s4)" for l m
    unfolding attempt(5)
    by (rule cycle_effect_trans [OF cycle_effect_refl(3) cycle_effect_refl(2)])
  show ?case
  proof (cases "stopped \<or> reconnect_ok w3 (reconnects_done w3)")
    case True
    then show ?thesis
      using c d by (auto intro: cycle_effect_trans [OF c])
  next
    case False
    with attempt(7) have
      "cycle_effect (log WARNING ReconnectFailed s4)
         (fst (reconnect_with_backoff r (log WARNING ReconnectFailed s4) w4))" by simp
    with cycle_effect_trans [OF c d [of WARNING ReconnectFailed]]
    have "cycle_effect s (fst (reconnect_with_backoff r (log WARNING ReconnectFailed s4) w4))"
      by (rule cycle_effect_trans)
    with False show ?thesis by simp
  qed
qed

lemma publish_telemetry_effect: "cycle_effect s (fst (publish_telemetry s w))"
  by (auto simp: publish_telemetry_def Let_def split: prod.splits publish_result.splits
           intro: cycle_effect_trans [OF cycle_effect_refl(3) cycle_effect_refl(2)])

lemma telemetry_iterations_effect: "cycle_effect s (fst (telemetry_iterations r s w))"
proof (induct rule: telemetry_iterations_cases
         [where P = "\<lambda>s w res. cycle_effect s (fst res)"])
  case (stopped s w)
  show ?case by simp
next
  case (reconnect_failed s w s1 w1 b s2 w2)
  have "cycle_effect s s1"
    using reconnect_with_backoff_effect [of s r w] reconnect_failed(3) by simp
  moreover have "cycle_effect s1 s2"
    by (rule stop_event_wait_cycle [OF reconnect_failed(5)])
  ultimately show ?case
    using reconnect_failed(6) by (blast intro: cycle_effect_trans)
next
  case (reconnected s w s1 w1 s2 w2 b s3 w3)
  have "cycle_effect s s1"
    using reconnect_with_backoff_effect [of s r w] reconnected(3) by simp
  moreover have "cycle_effect s1 s2"
    using publish_telemetry_effect [of s1 w1] reconnected(5) by simp
  moreover have "cycle_effect s2 s3"
    by (rule stop_event_wait_cycle [OF reconnected(6)])
  ultimately show ?case
    using reconnected(7) by (blast intro: cycle_effect_trans)
next
  case (connected s w s2 w2 b s3 w3)
  have "cycle_effect s s2"
    using publish_telemetry_effect [of s w] connected(3) by simp
  moreover have "cycle_effect s2 s3"
    by (rule stop_event_wait_cycle [OF connected(4)])
  ultimately show ?case
    using connected(5) by (blast intro: cycle_effect_trans)
qed

lemma telemetry_loop_effect: "cycle_effect s (fst (telemetry_loop r s w))"
proof -
  obtain s' w' where it: "telemetry_iterations r (log INFO StartingLoop s) w = (s', w')"
    by (cases "telemetry_iterations r (log INFO StartingLoop s) w") auto
  have "cycle_effect s (log INFO StartingLoop s)" by simp
  moreover have "cycle_effect (log INFO StartingLoop s) s'"
    using telemetry_iterations_effect [of "log INFO StartingLoop s" r w] it by simp
  moreover have "cycle_effect s' (log INFO LoopStopped s')" by simp
  ultimately have "cycle_effect s (log INFO LoopStopped s')"
    by (blast intro: cycle_effect_trans)
  with it show ?thesis by (simp add: telemetry_loop_def)
qed

section \<open>Counting reconnect calls\<close>

lemma reconnect_calls_append [simp]:
  "reconnect_calls (xs @ ys) = reconnect_calls xs + reconnect_calls ys"
  by (simp add: reconnect_calls_def)

lemma reconnect_calls_callbacks: "list_all is_callback_event tr \<Longrightarrow> reconnect_calls tr = 0"
  by (induction tr) (auto simp: reconnect_calls_def)

lemma callback_effect_reconnect_calls:
  "callback_effect s s' \<Longrightarrow> reconnect_calls (trace s') = reconnect_calls (trace s)"
  by (auto simp: callback_effect_def reconnect_calls_callbacks)

lemma stop_event_wait_no_connect:
  assumes "stop_event_wait r t s w = (b, s', w')" and "no_connect_ok w"
  shows "reconnect_attempts s' = reconnect_attempts s \<and> no_connect_ok w' \<and>
         max_reconnect_attempts s' = max_reconnect_attempts s \<and>
         reconnect_calls (trace s') = reconnect_calls (trace s)"
proof -
  from stop_event_wait_effect [OF assms(1)]
  have ce: "callback_effect (emit (Wait t) s) s'" by simp
  then have "reconnect_calls (trace s') = reconnect_calls (trace (emit (Wait t) s))"
    by (rule callback_effect_reconnect_calls)
  then have calls: "reconnect_calls (trace s') = reconnect_calls (trace s)"
    by (simp add: reconnect_calls_def)
  from ce have mx: "max_reconnect_attempts s' = max_reconnect_attempts s"
    by (simp add: callback_effect_def)
  have "reconnect_attempts s' = reconnect_attempts s \<and> no_connect_ok w'"
    using assms
    by (auto simp: stop_event_wait_def Let_def stop_def no_connect_ok_def deliver_attempts
             split: if_splits list.splits)
  with calls mx show ?thesis by simp
qed

lemma reconnect_calls_bound:
  "no_connect_ok w \<longrightarrow>
     reconnect_calls (trace (fst (reconnect_with_backoff r s w)))
       \<le> reconnect_calls (trace s)
           + nat (max_reconnect_attempts s - reconnect_attempts s)"
proof (induct rule: reconnect_with_backoff_cases
         [where P = "\<lambda>s w res. no_connect_ok w \<longrightarrow>
            reconnect_calls (trace (fst res))
              \<le> reconnect_calls (trace s)
                  + nat (max_reconnect_attempts s - reconnect_attempts s)"])
  case (idle s w)
  show ?case by (simp add: max_attempts_check_def reconnect_calls_def)
next
  case (attempt s w s1 stopped s3 w3 s4 w4)
  show ?case
  proof
    assume nc: "no_connect_ok w"
    from stop_event_wait_no_connect [OF attempt(4) nc]
    have a3: "reconnect_attempts s3 = reconnect_attempts s + 1"
      and nc3: "no_connect_ok w3"
      and m3: "max_reconnect_attempts s3 = max_reconnect_attempts s"
      and c3: "reconnect_calls (trace s3) = reconnect_calls (trace s)"
      by (simp_all add: attempt(3) reconnect_calls_def)
    have c4: "reconnect_calls (trace s4) = reconnect_calls (trace s) + 1"
      by (simp add: attempt(5) c3) (simp add: reconnect_calls_def)
    have nc4: "no_connect_ok w4" using nc3 by (simp add: attempt(6) no_connect_ok_def)
    show "reconnect_calls (trace (fst (if stopped then (max_attempts_check s3, w3)
               else if reconnect_ok w3 (reconnects_done w3) then (log INFO ReconnectOk s4, w4)
               else reconnect_with_backoff r (log WARNING ReconnectFailed s4) w4)))
          \<le> reconnect_calls (trace s)
              + nat (max_reconnect_attempts s - reconnect_attempts s)"
    proof (cases "stopped")
      case True
      then show ?thesis
        by (simp add: max_attempts_check_def c3) (simp add: reconnect_calls_def)
    next
      case ns: False
      show ?thesis
      proof (cases "reconnect_ok w3 (reconnects_done w3)")
        case True
        with ns attempt(2) show ?thesis
          by (simp add: c4) (simp add: reconnect_calls_def)
      next
        case False
        from attempt(7) [OF ns False] nc4
        have "reconnect_calls (trace (fst (reconnect_with_backoff r
                  (log WARNING ReconnectFailed s4) w4)))
              \<le> reconnect_calls (trace (log WARNING ReconnectFailed s4))
                  + nat (max_reconnect_attempts (log WARNING ReconnectFailed s4)
                         - reconnect_attempts (log WARNING ReconnectFailed s4))"
          by simp
        moreover have "reconnect_calls (trace (log WARNING ReconnectFailed s4))
                         = reconnect_calls (trace s) + 1"
          by (simp add: c4) (simp add: reconnect_calls_def)
        moreover have "max_reconnect_attempts (log WARNING ReconnectFailed s4)
                         = max_reconnect_attempts s"
          and "reconnect_attempts (log WARNING ReconnectFailed s4) = reconnect_attempts s + 1"
          by (simp_all add: attempt(5) m3 a3)
        ultimately show ?thesis
          using ns False attempt(2) by simp
      qed
    qed
  qed
qed

lemma update_attributes_interval_stored:
  assumes "map_of kvs ''interval'' = Some v" and "py_int r v = Inr n"
  shows "interval (snd (update_attributes r s (PDict kvs))) = max 1 n"
proof -
  from assms obtain s1 where i: "update_interval r s (PDict kvs) = Inr s1"
    and i1: "interval s1 = max 1 n"
    by (auto simp: update_interval_def Let_def)
  have "\<exists>s2. update_enabled s1 (PDict kvs) = Inr s2 \<and> interval s2 = interval s1"
    by (cases "map_of kvs ''enabled''") (simp_all add: update_enabled_def Let_def)
  then obtain s2 where en: "update_enabled s1 (PDict kvs) = Inr s2"
    and i2: "interval s2 = interval s1" by blast
  have "\<exists>s3. update_firmware r s2 (PDict kvs) = Inr s3 \<and> interval s3 = interval s2"
    by (cases "map_of kvs ''firmware_version''")
       (simp_all add: update_firmware_def Let_def simulate_ota_def)
  then obtain s3 where fw: "update_firmware r s2 (PDict kvs) = Inr s3"
    and i3: "interval s3 = interval s2" by blast
  from i en fw i1 i2 i3 show ?thesis by (simp add: update_attributes_def)
qed

lemma reconnect_with_backoff_first_wait:
  assumes nc: "\<not> connected s" and lt: "reconnect_attempts s < max_reconnect_attempts s"
  shows "\<exists>rest. trace (fst (reconnect_with_backoff r s w)) =
           trace s @ Log INFO (ReconnectAttempt (reconnect_attempts s + 1)
                                 (max_reconnect_attempts s)
                                 (reconnect_delay s * 2 ^ nat (reconnect_attempts s)))
                   # Wait (reconnect_delay s * 2 ^ nat (reconnect_attempts s)) # rest"
proof -
  define s1 where "s1 = s\<lparr>reconnect_attempts := reconnect_attempts s + 1\<rparr>"
  define s2 where "s2 = log INFO (ReconnectAttempt (reconnect_attempts s1)
                              (max_reconnect_attempts s1) (wait_time s1)) s1"
  have wt: "wait_time s1 = reconnect_delay s * 2 ^ nat (reconnect_attempts s)"
    by (simp add: wait_time_def s1_def)
  obtain stopped s3 w3 where sw: "stop_event_wait r (wait_time s1) s2 w = (stopped, s3, w3)"
    by (cases "stop_event_wait r (wait_time s1) s2 w") auto
  from stop_event_wait_effect [OF sw] obtain tr where
    t3: "trace s3 = trace (emit (Wait (wait_time s1)) s2) @ tr"
    by (auto simp: callback_effect_def)
  have t3': "trace s3 = trace s @ Log INFO (ReconnectAttempt (reconnect_attempts s + 1)
                                 (max_reconnect_attempts s)
                                 (reconnect_delay s * 2 ^ nat (reconnect_attempts s)))
                   # Wait (reconnect_delay s * 2 ^ nat (reconnect_attempts s)) # tr"
    by (simp add: t3 s2_def wt) (simp add: s1_def)
  define res where "res = reconnect_with_backoff r s w"
  have eq: "res =
           (if stopped then (max_attempts_check s3, w3)
            else if reconnect_ok w3 (reconnects_done w3)
            then (log INFO ReconnectOk (emit Reconnect s3),
                  w3\<lparr>reconnects_done := reconnects_done w3 + 1\<rparr>)
            else reconnect_with_backoff r (log WARNING ReconnectFailed (emit Reconnect s3))
                   (w3\<lparr>reconnects_done := reconnects_done w3 + 1\<rparr>))"
    unfolding res_def by (rule reconnect_with_backoff_step [OF nc lt s1_def sw [unfolded s2_def]])
  have "\<exists>tr'. trace (fst res) = trace s3 @ tr'"
  proof (cases "stopped \<or> reconnect_ok w3 (reconnects_done w3)")
    case True
    then show ?thesis by (auto simp: eq max_attempts_check_def)
  next
    case False
    from reconnect_with_backoff_effect
           [of "log WARNING ReconnectFailed (emit Reconnect s3)" r
               "w3\<lparr>reconnects_done := reconnects_done w3 + 1\<rparr>"]
    obtain tr' where "trace (fst (reconnect_with_backoff r
          (log WARNING ReconnectFailed (emit Reconnect s3))
          (w3\<lparr>reconnects_done := reconnects_done w3 + 1\<rparr>)))
        = trace (log WARNING ReconnectFailed (emit Reconnect s3)) @ tr'"
      by (auto simp: cycle_effect_def)
    with False show ?thesis by (simp add: eq)
  qed
  then obtain tr' where "trace (fst res) = trace s3 @ tr'" by blast
  then show ?thesis by (simp add: t3' res_def)
qed

section \<open>The attribute store\<close>

text \<open>
  C1 as stated: when \<open>int\<close> rejects the value of \<open>interval\<close>, only that key is skipped and
  \<open>enabled\<close> and \<open>firmware_version\<close> of the same update are still applied. It fails: from
  the initial sensor, the update \<open>{"interval": "abc", "enabled": false, "firmware_version":
  "2.0"}\<close> leaves \<open>enabled\<close> true and the firmware version \<open>"1.0"\<close>.
\<close>

theorem failed_interval_aborts_update_counterexample:
  "py_int plain (PStr ''abc'') = Inl ValueError \<and>
   enabled (snd (update_attributes plain init bad_interval_update)) = True \<and>
   firmware_version (snd (update_attributes plain init bad_interval_update)) = ''1.0''"
  by code_simp

text \<open>
  C1, amended: the \<open>try\<close> block spans the three keys and \<open>interval\<close> comes first, so when
  \<open>int\<close> rejects its value with a \<open>ValueError\<close> or a \<open>TypeError\<close> the whole update is
  abandoned. The call returns normally and the sensor is as before, but for one error line
  in the log: interval, enabled flag and firmware version are all unchanged.
\<close>

theorem failed_interval_aborts_update:
  assumes "map_of kvs ''interval'' = Some v" and "py_int bi v = Inl e"
    and "e = ValueError \<or> e = TypeError"
  shows "update_attributes bi s (PDict kvs) = (None, log ERROR (InvalidAttribute e) s)"
  using assms by (auto simp: update_attributes_def update_interval_def except_value_type_def)

theorem failed_interval_aborts_update_witness:
  "map_of [(''interval'', PStr ''abc''), (''enabled'', PBool False),
           (''firmware_version'', PStr ''2.0'')] ''interval'' = Some (PStr ''abc'') \<and>
   py_int plain (PStr ''abc'') = Inl ValueError \<and>
   update_attributes plain init bad_interval_update
     = (None, log ERROR (InvalidAttribute ValueError) init)"
proof -
  have k: "map_of [(''interval'', PStr ''abc''), (''enabled'', PBool False),
            (''firmware_version'', PStr ''2.0'')] ''interval'' = Some (PStr ''abc'')" by simp
  have i: "py_int plain (PStr ''abc'') = Inl ValueError" by code_simp
  have e: "ValueError = ValueError \<or> ValueError = TypeError" by simp
  show ?thesis
    using k i failed_interval_aborts_update [OF k i e, where s = init]
    by (simp add: bad_interval_update_def)
qed







text \<open>
  C10 as stated: whatever value stands under \<open>enabled\<close>, its truthiness is stored. It fails
  when the same update holds an \<open>interval\<close> that \<open>int\<close> rejects: from the initial sensor the
  update \<open>{"interval": "abc", "enabled": false}\<close> leaves \<open>enabled\<close> true, though \<open>false\<close> is
  falsy.
\<close>

theorem enabled_not_stored_counterexample:
  "py_bool (PBool False) = False \<and>
   enabled init = True \<and>
   enabled (snd (update_attributes plain init disabling_update)) = True"
  by code_simp

text \<open>
  C10, amended: when the update has no \<open>interval\<close> key, or \<open>int\<close> accepts the value under
  it, the stored flag is the truthiness of the value under \<open>enabled\<close>; when \<open>int\<close> raises
  on the value under \<open>interval\<close>, the flag is left as it was. A string is truthy exactly
  when it is not empty, so \<open>"false"\<close> and \<open>"0"\<close> enable the sensor; the values that
  disable it are \<open>None\<close>, \<open>False\<close>, zero, and the empty string, list and dict.
\<close>

theorem enabled_stores_truthiness:
  "(map_of kvs ''enabled'' = Some v \<and>
    (map_of kvs ''interval'' = None \<or>
     (\<exists>i n. map_of kvs ''interval'' = Some i \<and> py_int bi i = Inr n)) \<longrightarrow>
      enabled (snd (update_attributes bi s (PDict kvs))) = py_bool v \<and>
      fst (update_attributes bi s (PDict kvs)) = None) \<and>
   (map_of kvs ''interval'' = Some j \<and> py_int bi j = Inl e \<longrightarrow>
      enabled (snd (update_attributes bi s (PDict kvs))) = enabled s) \<and>
   py_bool (PStr str) = (str \<noteq> []) \<and>
   (py_bool u = False \<longleftrightarrow>
      u \<in> {PNone, PBool False, PInt 0, PFloat (FFin 0), PStr [], PList [], PDict []})"
proof -
  have stored: "enabled (snd (update_attributes bi s (PDict kvs))) = py_bool v \<and>
         fst (update_attributes bi s (PDict kvs)) = None"
    if en_key: "map_of kvs ''enabled'' = Some v"
      and int_ok: "map_of kvs ''interval'' = None \<or>
                   (\<exists>i n. map_of kvs ''interval'' = Some i \<and> py_int bi i = Inr n)"
  proof -
    from int_ok obtain s1 where i: "update_interval bi s (PDict kvs) = Inr s1"
      by (auto simp: update_interval_def Let_def)
    from en_key obtain s2 where en: "update_enabled s1 (PDict kvs) = Inr s2"
      and e2: "enabled s2 = py_bool v"
      by (auto simp: update_enabled_def Let_def)
    have "\<exists>s3. update_firmware bi s2 (PDict kvs) = Inr s3 \<and> enabled s3 = enabled s2"
      by (cases "map_of kvs ''firmware_version''")
         (simp_all add: update_firmware_def Let_def simulate_ota_def)
    then obtain s3 where fw: "update_firmware bi s2 (PDict kvs) = Inr s3"
      and e3: "enabled s3 = enabled s2"
      by blast
    from i en fw e2 e3 show ?thesis
      by (simp add: update_attributes_def)
  qed
  have kept: "enabled (snd (update_attributes bi s (PDict kvs))) = enabled s"
    if "map_of kvs ''interval'' = Some j" and "py_int bi j = Inl e"
  proof -
    from that have "update_interval bi s (PDict kvs) = Inl e"
      by (simp add: update_interval_def)
    then show ?thesis
      by (simp add: update_attributes_def except_value_type_def)
  qed
  have falsy: "py_bool u = False \<longleftrightarrow>
           u \<in> {PNone, PBool False, PInt 0, PFloat (FFin 0), PStr [], PList [], PDict []}"
    by (cases u rule: py_bool.cases) auto
  from stored kept falsy show ?thesis by simp
qed

text \<open>
  The string \<open>"false"\<close> enables a disabled sensor; with the interval \<open>"abc"\<close> in the same
  update, \<open>false\<close> does not disable an enabled one.
\<close>

theorem enabled_stores_truthiness_witness:
  "map_of [(''interval'', PInt 3), (''enabled'', PStr ''false'')] ''enabled''
     = Some (PStr ''false'') \<and>
   map_of [(''interval'', PInt 3), (''enabled'', PStr ''false'')] ''interval'' = Some (PInt 3) \<and>
   py_int plain (PInt 3) = Inr 3 \<and>
   enabled (snd (update_attributes plain (init\<lparr>enabled := False\<rparr>)
                   (PDict [(''interval'', PInt 3), (''enabled'', PStr ''false'')]))) = True \<and>
   map_of [(''interval'', PStr ''abc''), (''enabled'', PBool False)] ''interval''
     = Some (PStr ''abc'') \<and>
   py_int plain (PStr ''abc'') = Inl ValueError \<and>
   enabled (snd (update_attributes plain init
                   (PDict [(''interval'', PStr ''abc''), (''enabled'', PBool False)]))) = True"
proof -
  have i: "py_int plain (PStr ''abc'') = Inl ValueError" by code_simp
  have t: "enabled init = True" by (simp add: init_def)
  have a: "enabled (snd (update_attributes plain (init\<lparr>enabled := False\<rparr>)
                   (PDict [(''interval'', PInt 3), (''enabled'', PStr ''false'')]))) = True"
    using enabled_stores_truthiness
            [where kvs = "[(''interval'', PInt 3), (''enabled'', PStr ''false'')]"
               and v = "PStr ''false''" and bi = plain and s = "init\<lparr>enabled := False\<rparr>"]
    by simp
  have b: "enabled (snd (update_attributes plain init
                   (PDict [(''interval'', PStr ''abc''), (''enabled'', PBool False)]))) = True"
    using enabled_stores_truthiness
            [where kvs = "[(''interval'', PStr ''abc''), (''enabled'', PBool False)]"
               and j = "PStr ''abc''" and e = ValueError and bi = plain and s = init]
      i t
    by simp
  from a b i show ?thesis by simp
qed

section \<open>Inbound messages\<close>

text \<open>
  C4 as stated: a message with a \<open>shared\<close> sub-mapping has it forwarded to
  \<open>_update_attributes\<close>, and so has every message that is itself a flat mapping of the
  requested keys. The second half fails: the flat mapping \<open>{"interval": 10}\<close> is only logged
  as received, and the interval stays 5, where forwarding it would have stored 10.
\<close>

theorem flat_response_not_forwarded_counterexample:
  "on_message plain init (Decoded flat_response)
     = log INFO (ReceivedMessage flat_response) init \<and>
   interval (on_message plain init (Decoded flat_response)) = 5 \<and>
   interval (snd (update_attributes plain init flat_response)) = 10"
  by code_simp

text \<open>
  C4, amended: a decoded mapping with the key \<open>shared\<close> has the value under that key
  forwarded to \<open>_update_attributes\<close>; otherwise a mapping that has the key \<open>response\<close> is
  forwarded whole; a mapping with neither key is logged as received and ignored. An
  exception leaving \<open>_update_attributes\<close> is logged by the callback.
\<close>

theorem on_message_forwarding:
  "on_message bi s (Decoded (PDict kvs)) =
     (case map_of kvs ''shared'' of
        Some shared \<Rightarrow>
          except_exception
            (update_attributes bi (log INFO (ReceivedMessage (PDict kvs)) s) shared)
      | None \<Rightarrow>
          (case map_of kvs ''response'' of
             Some x \<Rightarrow>
               except_exception
                 (update_attributes bi (log INFO (ReceivedMessage (PDict kvs)) s)
                    (PDict kvs))
           | None \<Rightarrow> log INFO (ReceivedMessage (PDict kvs)) s))"
  by (simp add: on_message_def Let_def split: option.splits)

section \<open>The interval invariant\<close>

text \<open>
  C3: the stored interval is at least 1 at start-up and stays so: \<open>_update_attributes\<close>
  with any argument, every callback, and the whole telemetry loop with the callbacks
  arriving during its waits, keep it at least 1. An \<open>interval\<close> value that \<open>int\<close> turns
  into a number below 1 is stored as exactly 1.
\<close>

theorem interval_never_below_one:
  "1 \<le> interval init \<and>
   (1 \<le> interval s \<longrightarrow> 1 \<le> interval (snd (update_attributes bi s attributes))) \<and>
   (map_of kvs ''interval'' = Some v \<and> py_int bi v = Inr n \<and> n < 1 \<longrightarrow>
      interval (snd (update_attributes bi s (PDict kvs))) = 1) \<and>
   (1 \<le> interval s \<longrightarrow> 1 \<le> interval (deliver1 bi s cb)) \<and>
   (1 \<le> interval s \<longrightarrow> 1 \<le> interval (fst (telemetry_loop bi s w)))"
proof -
  have a: "1 \<le> interval init" by (simp add: init_def)
  have b: "1 \<le> interval s \<longrightarrow> 1 \<le> interval (snd (update_attributes bi s attributes))"
    using update_attributes_effect [of bi s attributes]
    by (cases "update_attributes bi s attributes") (simp add: attribute_effect_def)
  have c: "map_of kvs ''interval'' = Some v \<and> py_int bi v = Inr n \<and> n < 1 \<longrightarrow>
      interval (snd (update_attributes bi s (PDict kvs))) = 1"
    by (auto simp: update_attributes_interval_stored)
  have d: "1 \<le> interval s \<longrightarrow> 1 \<le> interval (deliver1 bi s cb)"
    using deliver1_effect [of s bi cb] by (simp add: callback_effect_def)
  have e: "1 \<le> interval s \<longrightarrow> 1 \<le> interval (fst (telemetry_loop bi s w))"
    using telemetry_loop_effect [of s bi w] by (simp add: cycle_effect_def)
  from a b c d e show ?thesis by blast
qed

text \<open>The update \<open>{"interval": 0}\<close> stores 1; a pushed \<open>-7\<close> keeps the interval positive.\<close>

theorem interval_never_below_one_witness:
  "1 \<le> interval init \<and>
   map_of [(''interval'', PInt 0)] ''interval'' = Some (PInt 0) \<and>
   py_int plain (PInt 0) = Inr 0 \<and>
   interval (snd (update_attributes plain init (PDict [(''interval'', PInt 0)]))) = 1 \<and>
   1 \<le> interval (deliver1 plain init
                    (CbMessage (Decoded (PDict [(''shared'', PDict [(''interval'', PInt (- 7))])])))) \<and>
   1 \<le> interval (fst (telemetry_loop plain init connect_then_stop))"
  using interval_never_below_one [of init plain "PDict [(''interval'', PInt 0)]"
          "[(''interval'', PInt 0)]" "PInt 0" 0
          "CbMessage (Decoded (PDict [(''shared'', PDict [(''interval'', PInt (- 7))])]))"
          connect_then_stop]
  by simp

section \<open>Telemetry publishing\<close>

text \<open>
  C8: \<open>_publish_telemetry\<close> while disconnected, or while \<open>enabled\<close> is false, calls no
  \<open>publish\<close> and leaves the sensor as it is, but for one log line. When connected and
  enabled it calls the client's \<open>publish\<close> exactly once, with the next generated reading;
  when the client reports a result code other than success, a warning is logged and
  nothing else happens: the reading is not published again.
\<close>

theorem publish_telemetry_contract:
  "(\<not> connected s \<longrightarrow> publish_telemetry s w = (log WARNING NotConnectedSkip s, w)) \<and>
   (connected s \<and> \<not> enabled s \<longrightarrow> publish_telemetry s w = (log DEBUG DisabledSkip s, w)) \<and>
   (connected s \<and> enabled s \<longrightarrow>
      (\<exists>l m. fst (publish_telemetry s w)
                = log l m (emit (PublishTelemetry (fst (publish_script w (publishes_done w)))) s)) \<and>
      snd (publish_telemetry s w) = w\<lparr>publishes_done := publishes_done w + 1\<rparr>) \<and>
   (connected s \<and> enabled s \<and> publish_script w (publishes_done w) = (data, PublishRc rc) \<and>
    rc \<noteq> MQTT_ERR_SUCCESS \<longrightarrow>
      fst (publish_telemetry s w)
        = log WARNING (FailedPublish rc data) (emit (PublishTelemetry data) s))"
  by (auto simp: publish_telemetry_def Let_def split: prod.splits publish_result.splits)

text \<open>
  Disconnected and disabled sensors publish nothing; a connected, enabled one whose
  publish is refused with code 4 logs the warning once.
\<close>

theorem publish_telemetry_contract_witness:
  "publish_telemetry init (unreachable_broker 0)
     = (log WARNING NotConnectedSkip init, unreachable_broker 0) \<and>
   publish_telemetry (init\<lparr>connected := True, enabled := False\<rparr>) (unreachable_broker 0)
     = (log DEBUG DisabledSkip (init\<lparr>connected := True, enabled := False\<rparr>),
        unreachable_broker 0) \<and>
   fst (publish_telemetry (init\<lparr>connected := True\<rparr>)
          ((unreachable_broker 0)\<lparr>publish_script := (\<lambda>k. ((FFin 21, FFin 48), PublishRc 4))\<rparr>))
     = log WARNING (FailedPublish 4 (FFin 21, FFin 48))
         (emit (PublishTelemetry (FFin 21, FFin 48)) (init\<lparr>connected := True\<rparr>))"
  using publish_telemetry_contract [of init "unreachable_broker 0"]
    publish_telemetry_contract [of "init\<lparr>connected := True, enabled := False\<rparr>"
                                    "unreachable_broker 0"]
    publish_telemetry_contract [of "init\<lparr>connected := True\<rparr>"
      "(unreachable_broker 0)\<lparr>publish_script := (\<lambda>k. ((FFin 21, FFin 48), PublishRc 4))\<rparr>"
      "(FFin 21, FFin 48)" 4]
  by (simp add: init_def MQTT_ERR_SUCCESS_def)

section \<open>The reconnect cycle\<close>

text \<open>
  C6: a reconnect cycle entered with the counter at or above \<open>max_reconnect_attempts\<close>
  starts no attempt at all; a counter within its bounds is still within them when the
  cycle returns, whatever arrives during the waits; and as long as no successful connection
  is reported in between, one cycle calls \<open>reconnect\<close> at most
  \<open>max_reconnect_attempts - reconnect_attempts\<close> times. The maximum is 5 and the counter
  starts at 0, so a cycle of failures makes at most 5 calls.
\<close>

theorem reconnect_attempts_bounded:
  "(\<not> reconnect_attempts s < max_reconnect_attempts s \<longrightarrow>
      reconnect_with_backoff bi s w = (max_attempts_check s, w) \<and>
      trace (max_attempts_check s) = trace s @ [Log ERROR MaxAttemptsReached]) \<and>
   (counter_ok s \<longrightarrow> counter_ok (fst (reconnect_with_backoff bi s w))) \<and>
   max_reconnect_attempts (fst (reconnect_with_backoff bi s w)) = max_reconnect_attempts s \<and>
   (no_connect_ok w \<longrightarrow>
      reconnect_calls (trace (fst (reconnect_with_backoff bi s w)))
        \<le> reconnect_calls (trace s)
            + nat (max_reconnect_attempts s - reconnect_attempts s)) \<and>
   max_reconnect_attempts init = 5 \<and> reconnect_attempts init = 0"
proof -
  have a: "\<not> reconnect_attempts s < max_reconnect_attempts s \<longrightarrow>
      reconnect_with_backoff bi s w = (max_attempts_check s, w) \<and>
      trace (max_attempts_check s) = trace s @ [Log ERROR MaxAttemptsReached]"
    by (simp add: reconnect_with_backoff_idle max_attempts_check_def)
  have b: "(counter_ok s \<longrightarrow> counter_ok (fst (reconnect_with_backoff bi s w))) \<and>
     max_reconnect_attempts (fst (reconnect_with_backoff bi s w)) = max_reconnect_attempts s"
    using reconnect_with_backoff_effect [of s bi w] by (simp add: cycle_effect_def)
  have c: "max_reconnect_attempts init = 5 \<and> reconnect_attempts init = 0"
    by (simp add: init_def)
  from a b c reconnect_calls_bound [of w bi s] show ?thesis by blast
qed

theorem reconnect_attempts_bounded_witness:
  "counter_ok init \<and> no_connect_ok (unreachable_broker 7) \<and>
   counter_ok (fst (reconnect_with_backoff plain init (unreachable_broker 7))) \<and>
   reconnect_calls (trace (fst (reconnect_with_backoff plain init (unreachable_broker 7))))
     \<le> 5 \<and>
   \<not> reconnect_attempts (init\<lparr>reconnect_attempts := 5\<rparr>)
       < max_reconnect_attempts (init\<lparr>reconnect_attempts := 5\<rparr>) \<and>
   reconnect_with_backoff plain (init\<lparr>reconnect_attempts := 5\<rparr>) (unreachable_broker 7)
     = (max_attempts_check (init\<lparr>reconnect_attempts := 5\<rparr>), unreachable_broker 7)"
proof -
  have c: "counter_ok init" by (simp add: counter_ok_def init_def)
  have n: "no_connect_ok (unreachable_broker 7)"
    by code_simp
  have t: "reconnect_calls (trace init) = 0" by (simp add: init_def reconnect_calls_def)
  have f: "\<not> reconnect_attempts (init\<lparr>reconnect_attempts := 5\<rparr>)
       < max_reconnect_attempts (init\<lparr>reconnect_attempts := 5\<rparr>)" by (simp add: init_def)
  have m: "max_reconnect_attempts init = 5" "reconnect_attempts init = 0"
    by (simp_all add: init_def)
  show ?thesis
    using c n f
      reconnect_attempts_bounded [of init plain "unreachable_broker 7"]
      reconnect_attempts_bounded [of "init\<lparr>reconnect_attempts := 5\<rparr>" plain
                                     "unreachable_broker 7"]
    by (simp add: t m)
qed

text \<open>
  C7: when attempt number \<open>n\<close> of a cycle is started, the cycle logs it and then waits
  \<open>reconnect_delay * 2 ^ (n - 1)\<close> seconds, whatever the environment does: the wait is a
  function of \<open>n\<close> alone. With a positive base delay it grows strictly with \<open>n\<close>. The base
  delay is 5 seconds and no cycle changes it.
\<close>

theorem backoff_delay_exponential:
  "(\<not> connected s \<and> 1 \<le> n \<and> n \<le> max_reconnect_attempts s \<and> reconnect_attempts s = n - 1 \<longrightarrow>
      (\<exists>rest. trace (fst (reconnect_with_backoff bi s w)) =
         trace s @ Log INFO (ReconnectAttempt n (max_reconnect_attempts s)
                               (reconnect_delay s * 2 ^ nat (n - 1)))
                 # Wait (reconnect_delay s * 2 ^ nat (n - 1)) # rest)) \<and>
   (0 < reconnect_delay s \<and> 1 \<le> n \<and> n < m \<longrightarrow>
      reconnect_delay s * 2 ^ nat (n - 1) < reconnect_delay s * 2 ^ nat (m - 1)) \<and>
   reconnect_delay init = 5 \<and>
   reconnect_delay (fst (reconnect_with_backoff bi s w)) = reconnect_delay s"
proof -
  have a: "\<not> connected s \<and> 1 \<le> n \<and> n \<le> max_reconnect_attempts s \<and> reconnect_attempts s = n - 1 \<longrightarrow>
      (\<exists>rest. trace (fst (reconnect_with_backoff bi s w)) =
         trace s @ Log INFO (ReconnectAttempt n (max_reconnect_attempts s)
                               (reconnect_delay s * 2 ^ nat (n - 1)))
                 # Wait (reconnect_delay s * 2 ^ nat (n - 1)) # rest)"
  proof
    assume h: "\<not> connected s \<and> 1 \<le> n \<and> n \<le> max_reconnect_attempts s \<and>
               reconnect_attempts s = n - 1"
    then have "reconnect_attempts s < max_reconnect_attempts s" by simp
    from reconnect_with_backoff_first_wait [OF _ this, of bi w] h
    show "\<exists>rest. trace (fst (reconnect_with_backoff bi s w)) =
         trace s @ Log INFO (ReconnectAttempt n (max_reconnect_attempts s)
                               (reconnect_delay s * 2 ^ nat (n - 1)))
                 # Wait (reconnect_delay s * 2 ^ nat (n - 1)) # rest"
      by simp
  qed
  have b: "0 < reconnect_delay s \<and> 1 \<le> n \<and> n < m \<longrightarrow>
      reconnect_delay s * 2 ^ nat (n - 1) < reconnect_delay s * 2 ^ nat (m - 1)"
  proof
    assume h: "0 < reconnect_delay s \<and> 1 \<le> n \<and> n < m"
    then have "nat (n - 1) < nat (m - 1)" by simp
    then have "(2::int) ^ nat (n - 1) < 2 ^ nat (m - 1)" by simp
    with h show "reconnect_delay s * 2 ^ nat (n - 1) < reconnect_delay s * 2 ^ nat (m - 1)"
      by simp
  qed
  have c: "reconnect_delay init = 5" by (simp add: init_def)
  have d: "reconnect_delay (fst (reconnect_with_backoff bi s w)) = reconnect_delay s"
    using reconnect_with_backoff_effect [of s bi w] by (simp add: cycle_effect_def)
  from a b c d show ?thesis by blast
qed

text \<open>
  From the initial sensor, attempt 1 waits 5 seconds and attempt 2 waits 10; against a
  broker that stays unreachable the five waits of the cycle are 5, 10, 20, 40 and 80.
\<close>

theorem backoff_delay_exponential_witness:
  "(\<exists>rest. trace (fst (reconnect_with_backoff plain init (unreachable_broker 7))) =
      Log INFO (ReconnectAttempt 1 5 5) # Wait 5 # rest) \<and>
   (\<exists>rest. trace (fst (reconnect_with_backoff plain (init\<lparr>reconnect_attempts := 1\<rparr>)
                         (unreachable_broker 7))) =
      Log INFO (ReconnectAttempt 2 5 10) # Wait 10 # rest) \<and>
   reconnect_delay init * 2 ^ nat (1 - 1) < reconnect_delay init * 2 ^ nat (2 - 1) \<and>
   filter (\<lambda>e. e \<in> {Wait 5, Wait 10, Wait 20, Wait 40, Wait 80})
     (trace (fst (reconnect_with_backoff plain init (unreachable_broker 7))))
     = [Wait 5, Wait 10, Wait 20, Wait 40, Wait 80]"
proof -
  have f: "filter (\<lambda>e. e \<in> {Wait 5, Wait 10, Wait 20, Wait 40, Wait 80})
     (trace (fst (reconnect_with_backoff plain init (unreachable_broker 7))))
     = [Wait 5, Wait 10, Wait 20, Wait 40, Wait 80]"
    by code_simp
  have i: "\<not> connected init" "max_reconnect_attempts init = 5" "reconnect_attempts init = 0"
    "reconnect_delay init = 5" "trace init = []"
    by (simp_all add: init_def)
  have a1: "\<exists>rest. trace (fst (reconnect_with_backoff plain init (unreachable_broker 7))) =
      Log INFO (ReconnectAttempt 1 5 5) # Wait 5 # rest"
    using backoff_delay_exponential [of init 1 plain "unreachable_broker 7" 2]
    by (simp add: i)
  have a2: "\<exists>rest. trace (fst (reconnect_with_backoff plain (init\<lparr>reconnect_attempts := 1\<rparr>)
                         (unreachable_broker 7))) =
      Log INFO (ReconnectAttempt 2 5 10) # Wait 10 # rest"
    using backoff_delay_exponential [of "init\<lparr>reconnect_attempts := 1\<rparr>" 2 plain
                                    "unreachable_broker 7" 3]
    by (simp add: i)
  have m: "reconnect_delay init * 2 ^ nat (1 - 1) < reconnect_delay init * 2 ^ nat (2 - 1)"
    by (simp add: i)
  from a1 a2 m f show ?thesis by blast
qed

section \<open>The telemetry loop\<close>

text \<open>
  C2: after a cycle has used up its attempts it logs the exhaustion and returns, and on
  each later iteration of the telemetry loop, while still disconnected, the cycle is run
  again and makes new \<open>reconnect\<close> calls. The first half holds; the second does not.
  The counter is reset only by \<open>_on_connect\<close>, so it stays at the maximum, and a later
  cycle finds its loop condition false. Against a broker that stays unreachable for eight
  waits, the loop makes the five \<open>reconnect\<close> calls of the first cycle and then, four
  times over, only logs the exhaustion and waits the base delay, until it is stopped.
\<close>

theorem exhausted_cycle_makes_no_attempt:
  "trace (fst (telemetry_loop plain init (unreachable_broker 8))) =
     [Log INFO StartingLoop,
      Log INFO (ReconnectAttempt 1 5 5), Wait 5, Reconnect, Log WARNING ReconnectFailed,
      Log INFO (ReconnectAttempt 2 5 10), Wait 10, Reconnect, Log WARNING ReconnectFailed,
      Log INFO (ReconnectAttempt 3 5 20), Wait 20, Reconnect, Log WARNING ReconnectFailed,
      Log INFO (ReconnectAttempt 4 5 40), Wait 40, Reconnect, Log WARNING ReconnectFailed,
      Log INFO (ReconnectAttempt 5 5 80), Wait 80, Reconnect, Log WARNING ReconnectFailed,
      Log ERROR MaxAttemptsReached, Wait 5,
      Log ERROR MaxAttemptsReached, Wait 5,
      Log ERROR MaxAttemptsReached, Wait 5,
      Log ERROR MaxAttemptsReached, Wait 5, Log INFO StoppingSensor,
      Log INFO LoopStopped]"
  by code_simp

text \<open>
  C5: when the stop signal arrives during a backoff wait, the cycle ends without calling
  \<open>reconnect\<close>, and nothing is published or reconnected afterwards. The first half holds;
  the second fails when the connection has been established during that same wait. The
  cycle then returns to a loop body that finds the sensor connected and, without looking
  at the stop signal again, publishes one reading.
\<close>

theorem publish_after_stop_observed:
  "trace (fst (telemetry_loop plain init connect_then_stop)) =
     [Log INFO StartingLoop,
      Log INFO (ReconnectAttempt 1 5 5), Wait 5,
      Log INFO ConnectedOk, Subscribe, Log INFO SubscribedTo, PublishRequest,
      Log INFO RequestedAttributes,
      Log INFO StoppingSensor,
      PublishTelemetry (FFin 20, FFin 50), Log INFO (PublishedTelemetry (FFin 20, FFin 50)),
      Wait 5,
      Log INFO LoopStopped]"
  by code_simp

end
